theory Spec2Isabelle
  imports Main "HOL-Library.Word"
begin

unbundle bit_operations_syntax

section \<open>Bytes\<close>

text \<open>
  A Python \<open>bytes\<close> object is a list of 8-bit words.  \<open>slice a b xs\<close> is the Python
  slice \<open>xs[a:b]\<close> for non-negative \<open>a \<le> b\<close>: it is total and shortens at the end of
  the data, as Python does.
\<close>

type_synonym byte = "8 word"
type_synonym bytes = "byte list"

definition slice :: "nat \<Rightarrow> nat \<Rightarrow> 'a list \<Rightarrow> 'a list" where
  "slice a b xs = take (b - a) (drop a xs)"

definition endswith :: "string \<Rightarrow> string \<Rightarrow> bool" where
  "endswith s suf \<longleftrightarrow>
     length suf \<le> length s \<and> drop (length s - length suf) s = suf"

section \<open>The world the two tools run in\<close>

text \<open>
  Both tools read and write files and print progress lines.  The file system is a map
  from paths to contents; standard output is the list of lines printed so far, each line
  kept as the values its f-string formats.  Writing a file always succeeds in this model;
  opening a missing file for reading raises \<open>FileNotFoundError\<close>.
\<close>

datatype msg =
    Msg_Magic bytes
  | Msg_Version byte byte byte byte
  | Msg_Enc_len nat nat
  | Msg_MD5_OK bytes
  | Msg_Decrypted string
  | Msg_Wrapping string
  | Msg_Version_args int int int int
  | Msg_ZIP_size nat nat
  | Msg_Enc_size nat
  | Msg_MD5 bytes
  | Msg_Written string nat

record world =
  files :: "string \<rightharpoonup> bytes"
  stdout :: "msg list"

definition write_file :: "string \<Rightarrow> bytes \<Rightarrow> world \<Rightarrow> world" where
  "write_file path content w = w\<lparr>files := (files w)(path \<mapsto> content)\<rparr>"

definition unlink_if_exists :: "string \<Rightarrow> world \<Rightarrow> world" where
  "unlink_if_exists path w =
     (if files w path \<noteq> None then w\<lparr>files := (files w)(path := None)\<rparr> else w)"

definition print :: "msg list \<Rightarrow> world \<Rightarrow> world" where
  "print ms w = w\<lparr>stdout := stdout w @ ms\<rparr>"

text \<open>The exceptions the two tools can raise, with the values their messages show.\<close>

datatype error =
    FileNotFoundError string
  | ValueError_file_too_small nat
  | ValueError_bad_magic bytes
  | ValueError_md5_mismatch bytes bytes
  | ValueError_not_a_zip bytes
  | ValueError_bytes_range
  | RuntimeError_openssl string
  | Struct_error
  | AssertionError

section \<open>External tools\<close>

text \<open>
  The tools call \<open>hashlib.md5\<close>, the \<open>openssl enc\<close> program and the \<open>zipfile\<close>
  module.  They are parameters of the model: \<open>md5\<close> is the digest,
  \<open>openssl_enc mode key iv input\<close> is one run of
  \<open>openssl enc -e|-d -aes-256-cbc -K key -iv iv -nopad\<close> on the content of the
  \<open>-in\<close> file, giving the process's return code, its standard error and what it left
  in the \<open>-out\<close> file (\<open>None\<close>: the file was not touched), and \<open>zip_deflated\<close>
  serialises a deflated archive from its entries.
\<close>

datatype enc_mode = Enc | Dec

record completed_process =
  returncode :: int
  stderr :: string
  written :: "bytes option"

record tools =
  md5 :: "bytes \<Rightarrow> bytes"
  openssl_enc :: "enc_mode \<Rightarrow> string \<Rightarrow> string \<Rightarrow> bytes \<Rightarrow> completed_process"
  zip_deflated :: "(string \<times> bytes) list \<Rightarrow> bytes"

text \<open>
  \<open>subprocess.run(["openssl", "enc", ..., "-in", inp, "-out", outp, ...])\<close>: the
  program reads \<open>inp\<close> and writes \<open>outp\<close>.
\<close>

definition run_openssl ::
  "tools \<Rightarrow> enc_mode \<Rightarrow> string \<Rightarrow> string \<Rightarrow> string \<Rightarrow> string \<Rightarrow> world
    \<Rightarrow> completed_process \<times> world" where
  "run_openssl T mode inp outp key iv w =
     (case files w inp of
        None \<Rightarrow> (\<lparr>returncode = 1, stderr = ''Can't open input file'', written = None\<rparr>, w)
      | Some plain \<Rightarrow>
          let result = openssl_enc T mode key iv plain
          in (result,
              case written result of None \<Rightarrow> w | Some out \<Rightarrow> write_file outp out w))"

section \<open>Integers in the header\<close>

text \<open>
  \<open>struct.pack("<I", n)\<close> raises \<open>struct.error\<close> unless \<open>0 \<le> n < 2 ** 32\<close>;
  \<open>struct.unpack_from("<I", data, 0x0C)[0]\<close> reads four bytes, least significant
  first.  \<open>bytes([...])\<close> raises \<open>ValueError\<close> on an element outside \<open>range(256)\<close>.
\<close>

definition struct_pack_I :: "nat \<Rightarrow> error + bytes" where
  "struct_pack_I n =
     (if n < 2 ^ 32
      then Inr [of_nat n, of_nat (n div 2 ^ 8), of_nat (n div 2 ^ 16), of_nat (n div 2 ^ 24)]
      else Inl Struct_error)"

fun struct_unpack_I :: "bytes \<Rightarrow> nat" where
  "struct_unpack_I [] = 0"
| "struct_unpack_I (b # bs) = unat b + 2 ^ 8 * struct_unpack_I bs"

fun bytes_of_ints :: "int list \<Rightarrow> error + bytes" where
  "bytes_of_ints [] = Inr []"
| "bytes_of_ints (i # is) =
     (if 0 \<le> i \<and> i < 256
      then (case bytes_of_ints is of Inl e \<Rightarrow> Inl e | Inr bs \<Rightarrow> Inr (word_of_int i # bs))
      else Inl ValueError_bytes_range)"

section \<open>cc_swu_encrypt.py: padding\<close>

text \<open>
  \<^verbatim>\<open>
  def _pad16(data: bytes) -> bytes:
      remainder = len(data) % 16
      if remainder:
          data += b"\x00" * (16 - remainder)
      return data
  \<close>
\<close>

definition pad16 :: "bytes \<Rightarrow> bytes" where
  "pad16 data =
     (let remainder = length data mod 16
      in if remainder \<noteq> 0 then data @ replicate (16 - remainder) 0 else data)"

section \<open>cc_swu_encrypt.py\<close>

definition encrypt_KEY :: string where
  "encrypt_KEY = ''78B6A614B6B6E361DC84D705B7FDDA33C967DDF2970A689F8156F78EFE0B1FCE''"

definition encrypt_IV :: string where
  "encrypt_IV = ''54E37626B9A699403064111F77858049''"

definition OTA_MAGIC :: bytes where
  "OTA_MAGIC = [0x14, 0x17, 0x0B, 0x17]"

definition CUSTOM_INFO :: bytes where
  "CUSTOM_INFO = [0x01, 0x00, 0x00, 0x00]"

text \<open>
  \<^verbatim>\<open>
  def _wrap_swu_in_zip(swu_path: str) -> bytes:
      buf = io.BytesIO()
      with zipfile.ZipFile(buf, "w", zipfile.ZIP_DEFLATED) as zf:
          zf.write(swu_path, "update/update.swu")
      return buf.getvalue()
  \<close>
\<close>

definition wrap_swu_in_zip :: "tools \<Rightarrow> string \<Rightarrow> world \<Rightarrow> error + bytes" where
  "wrap_swu_in_zip T swu_path w =
     (case files w swu_path of
        None \<Rightarrow> Inl (FileNotFoundError swu_path)
      | Some raw \<Rightarrow> Inr (zip_deflated T [(''update/update.swu'', raw)]))"

text \<open>
  \<open>encrypt\<close> is one function of six numbered sections.  Section 1 (obtain the ZIP
  bytes) is \<open>obtain_zip_bytes\<close>, section 3 (the two temporary files and the
  \<open>openssl\<close> run, with its \<open>finally\<close> clause) is \<open>openssl_encrypt_stage\<close>, sections
  4 and 5 (digest and header) are \<open>build_header\<close>, and \<open>pack_zip_bytes\<close> runs
  sections 2 to 6 on the bytes that section 1 produced.
\<close>

definition obtain_zip_bytes :: "tools \<Rightarrow> string \<Rightarrow> world \<Rightarrow> (error + bytes) \<times> world" where
  "obtain_zip_bytes T inpath w =
     (if endswith inpath ''.swu'' then
        let w1 = print [Msg_Wrapping inpath] w
        in (wrap_swu_in_zip T inpath w1, w1)
      else
        (case files w inpath of
           None \<Rightarrow> (Inl (FileNotFoundError inpath), w)
         | Some zip_bytes \<Rightarrow>
             if \<not> take 2 zip_bytes = [0x50, 0x4B]
             then (Inl (ValueError_not_a_zip (take 4 zip_bytes)), w)
             else (Inr zip_bytes, w)))"

definition openssl_encrypt_stage ::
  "tools \<Rightarrow> string \<Rightarrow> bytes \<Rightarrow> world \<Rightarrow> (error + bytes) \<times> world" where
  "openssl_encrypt_stage T outpath zip_padded w =
     (let tmp_plain = outpath @ ''.plain.tmp'';
          tmp_enc = outpath @ ''.enc.tmp'';
          w1 = write_file tmp_plain zip_padded w;
          (result, w2) = run_openssl T Enc tmp_plain tmp_enc encrypt_KEY encrypt_IV w1;
          outcome =
            (if returncode result \<noteq> 0 then Inl (RuntimeError_openssl (stderr result))
             else (case files w2 tmp_enc of
                     None \<Rightarrow> Inl (FileNotFoundError tmp_enc)
                   | Some encrypted \<Rightarrow> Inr encrypted))
      in (outcome, unlink_if_exists tmp_enc (unlink_if_exists tmp_plain w2)))"

definition build_header ::
  "tools \<Rightarrow> bytes \<Rightarrow> int \<Rightarrow> int \<Rightarrow> int \<Rightarrow> int \<Rightarrow> error + bytes" where
  "build_header T encrypted major minor patch board =
     (let md5_digest = md5 T encrypted
      in case bytes_of_ints [major AND 0xFF, minor AND 0xFF, patch AND 0xFF, board AND 0xFF] of
           Inl e \<Rightarrow> Inl e
         | Inr firmware_info \<Rightarrow>
             (case struct_pack_I (length encrypted) of
                Inl e \<Rightarrow> Inl e
              | Inr enc_len \<Rightarrow>
                  let header = OTA_MAGIC @ firmware_info @ CUSTOM_INFO @ enc_len @ md5_digest
                  in if length header = 0x20 then Inr header else Inl AssertionError))"

definition pack_zip_bytes ::
  "tools \<Rightarrow> string \<Rightarrow> bytes \<Rightarrow> int \<Rightarrow> int \<Rightarrow> int \<Rightarrow> int \<Rightarrow> world
    \<Rightarrow> (error + unit) \<times> world" where
  "pack_zip_bytes T outpath zip_bytes major minor patch board w =
     (let zip_padded = pad16 zip_bytes
      in case openssl_encrypt_stage T outpath zip_padded w of
           (Inl e, w1) \<Rightarrow> (Inl e, w1)
         | (Inr encrypted, w1) \<Rightarrow>
             (case build_header T encrypted major minor patch board of
                Inl e \<Rightarrow> (Inl e, w1)
              | Inr header \<Rightarrow>
                  (Inr (),
                   print [Msg_Version_args major minor patch board,
                          Msg_ZIP_size (length zip_bytes) (length zip_padded),
                          Msg_Enc_size (length encrypted),
                          Msg_MD5 (md5 T encrypted),
                          Msg_Written outpath (length header + length encrypted)]
                     (write_file outpath (header @ encrypted) w1))))"

definition encrypt ::
  "tools \<Rightarrow> string \<Rightarrow> string \<Rightarrow> int \<Rightarrow> int \<Rightarrow> int \<Rightarrow> int \<Rightarrow> world
    \<Rightarrow> (error + unit) \<times> world" where
  "encrypt T inpath outpath major minor patch board w =
     (case obtain_zip_bytes T inpath w of
        (Inl e, w0) \<Rightarrow> (Inl e, w0)
      | (Inr zip_bytes, w0) \<Rightarrow> pack_zip_bytes T outpath zip_bytes major minor patch board w0)"

section \<open>cc_swu_decrypt.py\<close>

definition decrypt_KEY :: string where
  "decrypt_KEY = ''78B6A614B6B6E361DC84D705B7FDDA33C967DDF2970A689F8156F78EFE0B0928''"

definition decrypt_IV :: string where
  "decrypt_IV = ''54E37626B9A699403064111F77858049''"

definition HEADER_SIZE :: nat where
  "HEADER_SIZE = 0x20"

text \<open>
  \<open>decrypt\<close> follows the source line by line: the size check, the six header slices,
  the magic check, the digest check, four printed lines, then the temporary file, the
  \<open>openssl\<close> run and the \<open>finally\<close> clause that removes the temporary file.
\<close>

definition decrypt :: "tools \<Rightarrow> string \<Rightarrow> string \<Rightarrow> world \<Rightarrow> (error + unit) \<times> world" where
  "decrypt T inpath outpath w =
     (case files w inpath of
        None \<Rightarrow> (Inl (FileNotFoundError inpath), w)
      | Some data \<Rightarrow>
          if length data < HEADER_SIZE then (Inl (ValueError_file_too_small (length data)), w)
          else
            let magic = slice 0x00 0x04 data;
                firmware_ver = slice 0x04 0x08 data;
                custom_info = slice 0x08 0x0C data;
                enc_len = struct_unpack_I (slice 0x0C 0x10 data);
                stored_md5 = slice 0x10 0x20 data;
                payload = drop 0x20 data
            in if magic \<noteq> OTA_MAGIC then (Inl (ValueError_bad_magic magic), w)
               else
                 let calc_md5 = md5 T payload
                 in if calc_md5 \<noteq> stored_md5
                    then (Inl (ValueError_md5_mismatch stored_md5 calc_md5), w)
                    else
                      let w1 = print [Msg_Magic magic,
                                      Msg_Version (firmware_ver ! 0) (firmware_ver ! 1)
                                        (firmware_ver ! 2) (firmware_ver ! 3),
                                      Msg_Enc_len enc_len (length payload),
                                      Msg_MD5_OK stored_md5] w;
                          tmpfile = outpath @ ''.stage1.tmp'';
                          w2 = write_file tmpfile payload w1;
                          (result, w3) =
                             run_openssl T Dec tmpfile outpath decrypt_KEY decrypt_IV w2;
                          w4 = unlink_if_exists tmpfile w3
                      in if returncode result \<noteq> 0
                         then (Inl (RuntimeError_openssl (stderr result)), w4)
                         else (Inr (), print [Msg_Decrypted outpath] w4))"

section \<open>A concrete set of tools\<close>

text \<open>
  The theorems below hold for every choice of the three external tools.  To run the
  model on concrete files, \<open>demo_tools\<close> fixes one choice with the interface behaviour
  the two scripts rely on: a digest of 16 bytes (a positional checksum, not MD5), a
  length-preserving cipher that depends on the key and the IV and rejects input that
  is not a multiple of 16 bytes long, as \<open>openssl enc -nopad\<close> does (a repeating-key
  XOR, not AES), and an archive writer that starts its output with \<open>PK\<close>.
\<close>

definition hex_digit :: "char \<Rightarrow> nat" where
  "hex_digit c =
     (let n = (of_char c :: nat)
      in if 48 \<le> n \<and> n \<le> 57 then n - 48
         else if 65 \<le> n \<and> n \<le> 70 then n - 55
         else if 97 \<le> n \<and> n \<le> 102 then n - 87
         else 0)"

fun hex_bytes :: "string \<Rightarrow> bytes" where
  "hex_bytes (a # b # cs) = of_nat (16 * hex_digit a + hex_digit b) # hex_bytes cs"
| "hex_bytes _ = []"

definition xor_stream :: "bytes \<Rightarrow> bytes \<Rightarrow> bytes" where
  "xor_stream key input =
     (if key = [] then input
      else map (\<lambda>(i, d). d XOR key ! (i mod length key)) (zip [0..<length input] input))"

definition demo_openssl :: "enc_mode \<Rightarrow> string \<Rightarrow> string \<Rightarrow> bytes \<Rightarrow> completed_process" where
  "demo_openssl mode key iv input =
     (if length input mod 16 = 0
      then \<lparr>returncode = 0, stderr = [],
            written = Some (xor_stream (hex_bytes key @ hex_bytes iv) input)\<rparr>
      else \<lparr>returncode = 1, stderr = ''bad length'', written = Some []\<rparr>)"

fun checksum16 :: "bytes \<Rightarrow> bytes \<Rightarrow> bytes" where
  "checksum16 acc [] = acc"
| "checksum16 acc (d # ds) = checksum16 (tl acc @ [hd acc + d]) ds"

definition demo_md5 :: "bytes \<Rightarrow> bytes" where
  "demo_md5 input = checksum16 (replicate 16 0) input"

definition demo_zip :: "(string \<times> bytes) list \<Rightarrow> bytes" where
  "demo_zip entries =
     [0x50, 0x4B, 0x03, 0x04] @ concat (map (\<lambda>(name, content). map of_char name @ content) entries)"

definition demo_tools :: tools where
  "demo_tools = \<lparr>md5 = demo_md5, openssl_enc = demo_openssl, zip_deflated = demo_zip\<rparr>"

text \<open>
  A container whose header declares a payload of 99 bytes while 16 bytes follow the
  header; its digest field is the argument.
\<close>

definition bad_len_container :: "bytes \<Rightarrow> bytes" where
  "bad_len_container digest = [0x14, 0x17, 0x0B, 0x17, 1, 1, 46, 0, 1, 0, 0, 0, 99, 0, 0, 0] @ digest @ replicate 16 7"

text \<open>
  Two containers with the same payload and digest whose version, board, custom-info and
  payload-length fields all differ.
\<close>

definition container_a :: bytes where
  "container_a = [0x14, 0x17, 0x0B, 0x17, 1, 1, 46, 0, 1, 0, 0, 0, 16, 0, 0, 0] @ replicate 16 7 @ replicate 16 7"

definition container_b :: bytes where
  "container_b = [0x14, 0x17, 0x0B, 0x17, 9, 8, 7, 6, 0xAA, 0xBB, 0xCC, 0xDD, 0, 0, 0, 0] @ replicate 16 7 @ replicate 16 7"

text \<open>
  The smallest well-formed archive, an end-of-central-directory record alone (22 bytes),
  and a file system holding it beside a raw image, a text file and an empty file.
\<close>

definition empty_zip :: bytes where
  "empty_zip = [0x50, 0x4B, 0x05, 0x06] @ replicate 18 0"

definition example_world :: world where
  "example_world =
     \<lparr>files = [''fw.zip'' \<mapsto> empty_zip, ''fw.swu'' \<mapsto> [1, 2, 3],
               ''notes.txt'' \<mapsto> [0x68, 0x69], ''empty.zip'' \<mapsto> []],
      stdout = []\<rparr>"

section \<open>Properties of the padding\<close>

lemma length_pad16_mod: "length (pad16 x) mod 16 = 0"
proof (cases "length x mod 16 = 0")
  case True
  then show ?thesis by (simp add: pad16_def)
next
  case False
  have "length x mod 16 < 16" by simp
  then have "(length x + (16 - length x mod 16)) mod 16 = 0"
    by presburger
  with False show ?thesis by (simp add: pad16_def Let_def)
qed

lemma pad16_aligned: "length x mod 16 = 0 \<Longrightarrow> pad16 x = x"
  by (simp add: pad16_def)

lemma pad16_unaligned:
  "length x mod 16 \<noteq> 0 \<Longrightarrow> pad16 x = x @ replicate (16 - length x mod 16) 0"
  by (simp add: pad16_def Let_def)

text \<open>
  Claim C6.  For every byte sequence \<open>x\<close>, the padding is idempotent, the length of
  its result is a multiple of 16, an input whose length is already a multiple of 16 is
  returned unchanged, and any other input gets exactly \<open>16 - (len(x) % 16)\<close> zero
  bytes appended.
\<close>

theorem C6_pad16_idempotent_aligned:
  "pad16 (pad16 x) = pad16 x
   \<and> length (pad16 x) mod 16 = 0
   \<and> (length x mod 16 = 0 \<longrightarrow> pad16 x = x)
   \<and> (length x mod 16 \<noteq> 0 \<longrightarrow> pad16 x = x @ replicate (16 - length x mod 16) 0)"
proof (intro conjI impI)
  show "pad16 (pad16 x) = pad16 x"
    by (rule pad16_aligned) (rule length_pad16_mod)
  show "length (pad16 x) mod 16 = 0"
    by (rule length_pad16_mod)
  show "pad16 x = x" if "length x mod 16 = 0"
    using that by (rule pad16_aligned)
  show "pad16 x = x @ replicate (16 - length x mod 16) 0" if "length x mod 16 \<noteq> 0"
    using that by (rule pad16_unaligned)
qed

theorem C6_pad16_witness:
  "pad16 (pad16 [0x50, 0x4B, 0x03]) = pad16 [0x50, 0x4B, 0x03]
   \<and> length (pad16 [0x50, 0x4B, 0x03]) mod 16 = 0
   \<and> length [0x50, 0x4B, 0x03 :: byte] mod 16 \<noteq> 0
   \<and> pad16 [0x50, 0x4B, 0x03] = [0x50, 0x4B, 0x03] @ replicate 13 0
   \<and> length (replicate 16 (7 :: byte)) mod 16 = 0
   \<and> pad16 (replicate 16 7) = replicate 16 7"
proof -
  have a: "length [0x50, 0x4B, 0x03 :: byte] mod 16 \<noteq> 0" by simp
  have b: "length (replicate 16 (7 :: byte)) mod 16 = 0" by simp
  have c: "16 - length [0x50, 0x4B, 0x03 :: byte] mod 16 = 13" by simp
  note p = C6_pad16_idempotent_aligned [of "[0x50, 0x4B, 0x03]"]
  note q = C6_pad16_idempotent_aligned [of "replicate 16 7"]
  from p have p1: "pad16 (pad16 [0x50, 0x4B, 0x03]) = pad16 [0x50, 0x4B, 0x03]"
    and p2: "length (pad16 [0x50, 0x4B, 0x03]) mod 16 = 0"
    by blast+
  from p a have "pad16 [0x50, 0x4B, 0x03]
      = [0x50, 0x4B, 0x03] @ replicate (16 - length [0x50, 0x4B, 0x03 :: byte] mod 16) 0"
    by blast
  then have p3: "pad16 [0x50, 0x4B, 0x03] = [0x50, 0x4B, 0x03] @ replicate 13 0"
    unfolding c .
  from q b have q1: "pad16 (replicate 16 7) = replicate 16 7"
    by blast
  from p1 p2 a p3 b q1 show ?thesis
    by (intro conjI)
qed

section \<open>What \<open>decrypt\<close> does, check by check\<close>

lemma slice_0: "slice 0 n xs = take n xs"
  by (simp add: slice_def)

lemma tmp_neq: "outpath @ c # cs \<noteq> outpath"
  by simp

lemma decrypt_too_small:
  "files w inpath = Some data \<Longrightarrow> length data < 32 \<Longrightarrow>
   decrypt T inpath outpath w = (Inl (ValueError_file_too_small (length data)), w)"
  by (simp add: decrypt_def HEADER_SIZE_def)

lemma decrypt_bad_magic:
  "files w inpath = Some data \<Longrightarrow> 32 \<le> length data \<Longrightarrow> take 4 data \<noteq> OTA_MAGIC \<Longrightarrow>
   decrypt T inpath outpath w = (Inl (ValueError_bad_magic (take 4 data)), w)"
  by (simp add: decrypt_def HEADER_SIZE_def slice_0 Let_def)

lemma decrypt_md5_mismatch:
  "files w inpath = Some data \<Longrightarrow> 32 \<le> length data \<Longrightarrow> take 4 data = OTA_MAGIC \<Longrightarrow>
   md5 T (drop 32 data) \<noteq> slice 16 32 data \<Longrightarrow>
   decrypt T inpath outpath w =
     (Inl (ValueError_md5_mismatch (slice 16 32 data) (md5 T (drop 32 data))), w)"
  by (simp add: decrypt_def HEADER_SIZE_def slice_0 Let_def)

lemma decrypt_checked_fst:
  "files w inpath = Some data \<Longrightarrow> 32 \<le> length data \<Longrightarrow> take 4 data = OTA_MAGIC \<Longrightarrow>
   md5 T (drop 32 data) = slice 16 32 data \<Longrightarrow>
   fst (decrypt T inpath outpath w) =
     (let r = openssl_enc T Dec decrypt_KEY decrypt_IV (drop 32 data)
      in if returncode r \<noteq> 0 then Inl (RuntimeError_openssl (stderr r)) else Inr ())"
  by (simp add: decrypt_def HEADER_SIZE_def slice_0 Let_def run_openssl_def write_file_def
      print_def unlink_if_exists_def split: option.splits)

lemma decrypt_checked_files:
  "files w inpath = Some data \<Longrightarrow> 32 \<le> length data \<Longrightarrow> take 4 data = OTA_MAGIC \<Longrightarrow>
   md5 T (drop 32 data) = slice 16 32 data \<Longrightarrow>
   files (snd (decrypt T inpath outpath w)) =
     (case written (openssl_enc T Dec decrypt_KEY decrypt_IV (drop 32 data)) of
        None \<Rightarrow> files w
      | Some out \<Rightarrow> (files w)(outpath \<mapsto> out)) (outpath @ ''.stage1.tmp'' := None)"
  by (auto simp add: decrypt_def HEADER_SIZE_def slice_0 Let_def run_openssl_def write_file_def
      print_def unlink_if_exists_def fun_upd_twist split: option.splits)

section \<open>What \<open>encrypt\<close> does, section by section\<close>

lemma and_255_range: "0 \<le> (x::int) AND 0xFF \<and> x AND 0xFF < 256"
proof -
  have "x AND 0xFF \<le> 0xFF" by (rule AND_upper2) simp
  then show ?thesis by simp
qed

lemma bytes_of_ints_masked:
  "bytes_of_ints [a AND 0xFF, b AND 0xFF, c AND 0xFF, d AND 0xFF] =
     Inr [word_of_int (a AND 0xFF), word_of_int (b AND 0xFF),
          word_of_int (c AND 0xFF), word_of_int (d AND 0xFF)]"
  using and_255_range [of a] and_255_range [of b] and_255_range [of c] and_255_range [of d]
  by simp



lemma build_header_eq:
  "build_header T encrypted major minor patch board =
     (if length encrypted < 2 ^ 32 then
        if length (md5 T encrypted) = 16 then
          Inr (OTA_MAGIC
               @ [word_of_int (major AND 0xFF), word_of_int (minor AND 0xFF),
                  word_of_int (patch AND 0xFF), word_of_int (board AND 0xFF)]
               @ CUSTOM_INFO
               @ [of_nat (length encrypted), of_nat (length encrypted div 2 ^ 8),
                  of_nat (length encrypted div 2 ^ 16), of_nat (length encrypted div 2 ^ 24)]
               @ md5 T encrypted)
        else Inl AssertionError
      else Inl Struct_error)"
  by (simp add: build_header_def bytes_of_ints_masked struct_pack_I_def Let_def
      OTA_MAGIC_def CUSTOM_INFO_def del: bytes_of_ints.simps)

lemma tmp_names_differ: "outpath @ ''.plain.tmp'' \<noteq> outpath @ ''.enc.tmp''"
  by simp

lemma openssl_encrypt_stage_files:
  "files (snd (openssl_encrypt_stage T outpath zp w)) =
     (files w)(outpath @ ''.plain.tmp'' := None, outpath @ ''.enc.tmp'' := None)"
  unfolding openssl_encrypt_stage_def run_openssl_def write_file_def unlink_if_exists_def Let_def
  by (cases "written (openssl_enc T Enc encrypt_KEY encrypt_IV zp)")
     (simp_all add: fun_eq_iff)

lemma openssl_encrypt_stage_stdout:
  "stdout (snd (openssl_encrypt_stage T outpath zp w)) = stdout w"
  unfolding openssl_encrypt_stage_def run_openssl_def write_file_def unlink_if_exists_def Let_def
  by (cases "written (openssl_enc T Enc encrypt_KEY encrypt_IV zp)") simp_all

lemma openssl_encrypt_stage_fst:
  "fst (openssl_encrypt_stage T outpath zp w) =
     (let r = openssl_enc T Enc encrypt_KEY encrypt_IV zp
      in if returncode r \<noteq> 0 then Inl (RuntimeError_openssl (stderr r))
         else (case written r of
                 Some encrypted \<Rightarrow> Inr encrypted
               | None \<Rightarrow> (case files w (outpath @ ''.enc.tmp'') of
                            None \<Rightarrow> Inl (FileNotFoundError (outpath @ ''.enc.tmp''))
                          | Some old \<Rightarrow> Inr old)))"
  unfolding openssl_encrypt_stage_def run_openssl_def write_file_def unlink_if_exists_def Let_def
  by (cases "written (openssl_enc T Enc encrypt_KEY encrypt_IV zp)") simp_all

section \<open>Facts about the concrete tools\<close>

lemma length_checksum16: "length acc = 16 \<Longrightarrow> length (checksum16 acc ds) = 16"
  by (induction acc ds rule: checksum16.induct) (auto simp: length_Suc_conv)

lemma length_demo_md5: "length (md5 demo_tools x) = 16"
  by (simp add: demo_tools_def demo_md5_def length_checksum16)

lemma length_xor_stream: "length (xor_stream key ds) = length ds"
  by (simp add: xor_stream_def)

lemma demo_openssl_aligned:
  "length x mod 16 = 0 \<Longrightarrow>
   returncode (openssl_enc demo_tools mode key iv x) = 0 \<and>
   written (openssl_enc demo_tools mode key iv x)
     = Some (xor_stream (hex_bytes key @ hex_bytes iv) x)"
  by (simp add: demo_tools_def demo_openssl_def)

lemma demo_md5_sevens: "demo_md5 (replicate 16 7) = replicate 16 7"
  by (simp add: demo_md5_def numeral_eq_Suc)

section \<open>Claims about \<open>decrypt\<close>\<close>

text \<open>
  Claim C2.  On unpack the digest of the payload (all bytes after offset 32) is
  recomputed and compared with the stored digest before any decryption is attempted:
  when they differ, \<open>decrypt\<close> raises the MD5 mismatch and leaves the world
  untouched whatever the cipher program would do.  The check does not depend on the
  declared payload length: when the digests agree the outcome is that of the
  \<open>openssl\<close> run on the payload, whatever bytes 12 to 15 declare.
\<close>

theorem C2_digest_checked_before_decryption:
  assumes "files w inpath = Some data" and "HEADER_SIZE \<le> length data"
    and "slice 0 4 data = OTA_MAGIC"
  shows "(md5 T (drop 32 data) \<noteq> slice 16 32 data \<longrightarrow>
            decrypt (T\<lparr>openssl_enc := any_cipher\<rparr>) inpath outpath w =
              (Inl (ValueError_md5_mismatch (slice 16 32 data) (md5 T (drop 32 data))), w))
       \<and> (md5 T (drop 32 data) = slice 16 32 data \<longrightarrow>
            fst (decrypt T inpath outpath w) =
              (let r = openssl_enc T Dec decrypt_KEY decrypt_IV (drop 32 data)
               in if returncode r \<noteq> 0 then Inl (RuntimeError_openssl (stderr r)) else Inr ()))"
proof (intro conjI impI)
  from assms have len: "32 \<le> length data" and magic: "take 4 data = OTA_MAGIC"
    by (simp_all add: HEADER_SIZE_def slice_0)
  show "decrypt (T\<lparr>openssl_enc := any_cipher\<rparr>) inpath outpath w =
      (Inl (ValueError_md5_mismatch (slice 16 32 data) (md5 T (drop 32 data))), w)"
    if "md5 T (drop 32 data) \<noteq> slice 16 32 data"
    using decrypt_md5_mismatch [of w inpath data "T\<lparr>openssl_enc := any_cipher\<rparr>" outpath]
      assms(1) len magic that by simp
  show "fst (decrypt T inpath outpath w) =
      (let r = openssl_enc T Dec decrypt_KEY decrypt_IV (drop 32 data)
       in if returncode r \<noteq> 0 then Inl (RuntimeError_openssl (stderr r)) else Inr ())"
    if "md5 T (drop 32 data) = slice 16 32 data"
    using assms(1) len magic that by (rule decrypt_checked_fst)
qed

theorem C2_witness:
  "struct_unpack_I (slice 12 16 (bad_len_container (replicate 16 0))) \<noteq> length (drop 32 (bad_len_container (replicate 16 0)))
   \<and> decrypt (demo_tools\<lparr>openssl_enc := (\<lambda>m k i d. \<lparr>returncode = 0, stderr = [], written = Some d\<rparr>)\<rparr>)
        ''fw.bin'' ''out.zip'' \<lparr>files = [''fw.bin'' \<mapsto> bad_len_container (replicate 16 0)], stdout = []\<rparr>
      = (Inl (ValueError_md5_mismatch (replicate 16 0) (replicate 16 7)),
         \<lparr>files = [''fw.bin'' \<mapsto> bad_len_container (replicate 16 0)], stdout = []\<rparr>)
   \<and> struct_unpack_I (slice 12 16 (bad_len_container (replicate 16 7))) \<noteq> length (drop 32 (bad_len_container (replicate 16 7)))
   \<and> fst (decrypt demo_tools ''fw.bin'' ''out.zip''
        \<lparr>files = [''fw.bin'' \<mapsto> bad_len_container (replicate 16 7)], stdout = []\<rparr>) = Inr ()"
proof -
  let ?bad = "bad_len_container (replicate 16 0)"
  let ?good = "bad_len_container (replicate 16 7)"
  let ?wb = "\<lparr>files = [''fw.bin'' \<mapsto> ?bad], stdout = []\<rparr>"
  let ?wg = "\<lparr>files = [''fw.bin'' \<mapsto> ?good], stdout = []\<rparr>"
  have db: "drop 32 ?bad = replicate 16 7" "slice 16 32 ?bad = replicate 16 0"
    "slice 0 4 ?bad = OTA_MAGIC" "HEADER_SIZE \<le> length ?bad" "slice 12 16 ?bad = [99, 0, 0, 0]"
    by (simp_all add: bad_len_container_def slice_def OTA_MAGIC_def HEADER_SIZE_def)
  have dg: "drop 32 ?good = replicate 16 7" "slice 16 32 ?good = replicate 16 7"
    "slice 0 4 ?good = OTA_MAGIC" "HEADER_SIZE \<le> length ?good" "slice 12 16 ?good = [99, 0, 0, 0]"
    by (simp_all add: bad_len_container_def slice_def OTA_MAGIC_def HEADER_SIZE_def)
  have m: "md5 demo_tools (replicate 16 7) = replicate 16 7"
    by (simp add: demo_tools_def demo_md5_sevens)
  have ne: "replicate 16 (7 :: byte) \<noteq> replicate 16 0"
    by simp
  have fb: "files ?wb ''fw.bin'' = Some ?bad" and fg: "files ?wg ''fw.bin'' = Some ?good"
    by simp_all
  have 1: "decrypt (demo_tools\<lparr>openssl_enc := (\<lambda>m k i d. \<lparr>returncode = 0, stderr = [], written = Some d\<rparr>)\<rparr>)
        ''fw.bin'' ''out.zip'' ?wb = (Inl (ValueError_md5_mismatch (replicate 16 0) (replicate 16 7)), ?wb)"
    using C2_digest_checked_before_decryption [OF fb db(4) db(3), of demo_tools _ "''out.zip''"]
    unfolding db m using ne by simp
  have 2: "fst (decrypt demo_tools ''fw.bin'' ''out.zip'' ?wg) = Inr ()"
    using C2_digest_checked_before_decryption [OF fg dg(4) dg(3), of demo_tools _ "''out.zip''"]
    unfolding dg m by (simp add: demo_tools_def demo_openssl_def)
  have 3: "struct_unpack_I (slice 12 16 ?bad) \<noteq> length (drop 32 ?bad)"
    "struct_unpack_I (slice 12 16 ?good) \<noteq> length (drop 32 ?good)"
    unfolding db dg by simp_all
  from 1 2 3 show ?thesis by blast
qed

text \<open>
  Claim C3, as stated: every input whose first four bytes differ from \<open>14 17 0B 17\<close>
  fails with the bad-magic error whatever its length.  It does not hold: the size check
  comes first, and a four-byte input with a wrong magic fails with the file-too-small
  error instead.
\<close>

theorem C3_short_input_counterexample:
  "take 4 [0xDE, 0xAD, 0xBE, 0xEF] \<noteq> OTA_MAGIC
   \<and> decrypt demo_tools ''fw.bin'' ''out.zip''
        \<lparr>files = [''fw.bin'' \<mapsto> [0xDE, 0xAD, 0xBE, 0xEF]], stdout = []\<rparr>
       = (Inl (ValueError_file_too_small 4),
          \<lparr>files = [''fw.bin'' \<mapsto> [0xDE, 0xAD, 0xBE, 0xEF]], stdout = []\<rparr>)"
  by (simp add: decrypt_def HEADER_SIZE_def OTA_MAGIC_def)

text \<open>
  Claim C3, amended: every input of at least 32 bytes whose first four bytes differ from
  \<open>14 17 0B 17\<close> fails with the bad-magic error, regardless of the rest of its
  content, and every input shorter than 32 bytes fails with the file-too-small error
  before the magic is looked at, whatever its bytes are.  In both cases the world is
  left untouched.
\<close>

theorem C3_size_check_then_magic_check:
  assumes "files w inpath = Some data"
  shows "(HEADER_SIZE \<le> length data \<and> take 4 data \<noteq> OTA_MAGIC \<longrightarrow>
            decrypt T inpath outpath w = (Inl (ValueError_bad_magic (take 4 data)), w))
       \<and> (length data < HEADER_SIZE \<longrightarrow>
            decrypt T inpath outpath w = (Inl (ValueError_file_too_small (length data)), w))"
proof (intro conjI impI)
  show "decrypt T inpath outpath w = (Inl (ValueError_bad_magic (take 4 data)), w)"
    if "HEADER_SIZE \<le> length data \<and> take 4 data \<noteq> OTA_MAGIC"
    using assms that by (simp add: decrypt_bad_magic HEADER_SIZE_def)
  show "decrypt T inpath outpath w = (Inl (ValueError_file_too_small (length data)), w)"
    if "length data < HEADER_SIZE"
    using assms that by (simp add: decrypt_too_small HEADER_SIZE_def)
qed

theorem C3_witness:
  "files \<lparr>files = [''fw.bin'' \<mapsto> replicate 40 0], stdout = []\<rparr> ''fw.bin'' = Some (replicate 40 0)
   \<and> HEADER_SIZE \<le> length (replicate 40 (0 :: byte))
   \<and> take 4 (replicate 40 0) \<noteq> OTA_MAGIC
   \<and> decrypt demo_tools ''fw.bin'' ''out.zip'' \<lparr>files = [''fw.bin'' \<mapsto> replicate 40 0], stdout = []\<rparr>
       = (Inl (ValueError_bad_magic (replicate 4 0)),
          \<lparr>files = [''fw.bin'' \<mapsto> replicate 40 0], stdout = []\<rparr>)
   \<and> files \<lparr>files = [''fw.bin'' \<mapsto> OTA_MAGIC @ replicate 27 0], stdout = []\<rparr> ''fw.bin''
       = Some (OTA_MAGIC @ replicate 27 0)
   \<and> length (OTA_MAGIC @ replicate 27 0) < HEADER_SIZE
   \<and> take 4 (OTA_MAGIC @ replicate 27 0) = OTA_MAGIC
   \<and> decrypt demo_tools ''fw.bin'' ''out.zip''
        \<lparr>files = [''fw.bin'' \<mapsto> OTA_MAGIC @ replicate 27 0], stdout = []\<rparr>
       = (Inl (ValueError_file_too_small 31),
          \<lparr>files = [''fw.bin'' \<mapsto> OTA_MAGIC @ replicate 27 0], stdout = []\<rparr>)"
proof -
  let ?w = "\<lparr>files = [''fw.bin'' \<mapsto> replicate 40 (0 :: byte)], stdout = []\<rparr>"
  let ?v = "\<lparr>files = [''fw.bin'' \<mapsto> OTA_MAGIC @ replicate 27 0], stdout = []\<rparr>"
  have a: "files ?w ''fw.bin'' = Some (replicate 40 0)" by simp
  have b: "HEADER_SIZE \<le> length (replicate 40 (0 :: byte))" by (simp add: HEADER_SIZE_def)
  have t: "take 4 (replicate 40 (0 :: byte)) = replicate 4 0" by simp
  have r4: "replicate 4 (0 :: byte) = [0, 0, 0, 0]" by code_simp
  have c: "take 4 (replicate 40 0) \<noteq> OTA_MAGIC"
    unfolding t r4 by (simp add: OTA_MAGIC_def)
  have d: "files ?v ''fw.bin'' = Some (OTA_MAGIC @ replicate 27 0)" by simp
  have l: "length (OTA_MAGIC @ replicate 27 0) = 31" by (simp add: OTA_MAGIC_def)
  have e: "length (OTA_MAGIC @ replicate 27 0) < HEADER_SIZE"
    unfolding l by (simp add: HEADER_SIZE_def)
  have f: "take 4 (OTA_MAGIC @ replicate 27 0) = OTA_MAGIC" by (simp add: OTA_MAGIC_def)
  from C3_size_check_then_magic_check [OF a, of demo_tools "''out.zip''"] b c
  have 1: "decrypt demo_tools ''fw.bin'' ''out.zip'' ?w = (Inl (ValueError_bad_magic (replicate 4 0)), ?w)"
    unfolding t by blast
  from C3_size_check_then_magic_check [OF d, of demo_tools "''out.zip''"] e
  have 2: "decrypt demo_tools ''fw.bin'' ''out.zip'' ?v = (Inl (ValueError_file_too_small 31), ?v)"
    unfolding l by blast
  from a b c 1 d e f 2 show ?thesis by (intro conjI)
qed

text \<open>
  Claim C10.  Two containers that pass the size, magic and digest checks and have the same
  payload (bytes from offset 32 on) decode alike: the same outcome and the same files,
  the decoded output being what the cipher program wrote for the payload under the fixed
  key and IV.  The version, board, custom-info and payload-length fields only show in the
  printed lines.
\<close>

theorem C10_output_depends_on_payload_only:
  assumes "files w in1 = Some d1" and "files w in2 = Some d2"
    and "HEADER_SIZE \<le> length d1" and "HEADER_SIZE \<le> length d2"
    and "slice 0 4 d1 = OTA_MAGIC" and "slice 0 4 d2 = OTA_MAGIC"
    and "md5 T (drop 32 d1) = slice 16 32 d1" and "md5 T (drop 32 d2) = slice 16 32 d2"
    and "drop 32 d1 = drop 32 d2"
  shows "fst (decrypt T in1 outpath w) = fst (decrypt T in2 outpath w)
       \<and> files (snd (decrypt T in1 outpath w)) = files (snd (decrypt T in2 outpath w))
       \<and> files (snd (decrypt T in1 outpath w)) =
           (case written (openssl_enc T Dec decrypt_KEY decrypt_IV (drop 32 d1)) of
              None \<Rightarrow> files w
            | Some out \<Rightarrow> (files w)(outpath \<mapsto> out)) (outpath @ ''.stage1.tmp'' := None)"
proof -
  from assms have l: "32 \<le> length d1" "32 \<le> length d2"
    and m: "take 4 d1 = OTA_MAGIC" "take 4 d2 = OTA_MAGIC"
    by (simp_all add: HEADER_SIZE_def slice_0)
  note f1 = decrypt_checked_fst [OF assms(1) l(1) m(1) assms(7), of outpath]
  note f2 = decrypt_checked_fst [OF assms(2) l(2) m(2) assms(8), of outpath]
  note g1 = decrypt_checked_files [OF assms(1) l(1) m(1) assms(7), of outpath]
  note g2 = decrypt_checked_files [OF assms(2) l(2) m(2) assms(8), of outpath]
  from f1 f2 g1 g2 assms(9) show ?thesis by simp
qed

theorem C10_witness:
  "slice 4 16 container_a \<noteq> slice 4 16 container_b
   \<and> drop 32 container_a = drop 32 container_b
   \<and> fst (decrypt demo_tools ''a.bin'' ''out.zip''
          \<lparr>files = [''a.bin'' \<mapsto> container_a, ''b.bin'' \<mapsto> container_b], stdout = []\<rparr>) =
       fst (decrypt demo_tools ''b.bin'' ''out.zip''
          \<lparr>files = [''a.bin'' \<mapsto> container_a, ''b.bin'' \<mapsto> container_b], stdout = []\<rparr>)
   \<and> files (snd (decrypt demo_tools ''a.bin'' ''out.zip''
          \<lparr>files = [''a.bin'' \<mapsto> container_a, ''b.bin'' \<mapsto> container_b], stdout = []\<rparr>)) =
       files (snd (decrypt demo_tools ''b.bin'' ''out.zip''
          \<lparr>files = [''a.bin'' \<mapsto> container_a, ''b.bin'' \<mapsto> container_b], stdout = []\<rparr>))"
proof -
  let ?w = "\<lparr>files = [''a.bin'' \<mapsto> container_a, ''b.bin'' \<mapsto> container_b], stdout = []\<rparr>"
  have fa: "files ?w ''a.bin'' = Some container_a" and fb: "files ?w ''b.bin'' = Some container_b"
    by simp_all
  have la: "HEADER_SIZE \<le> length container_a" and lb: "HEADER_SIZE \<le> length container_b"
    by (simp_all add: container_a_def container_b_def HEADER_SIZE_def)
  have ma: "slice 0 4 container_a = OTA_MAGIC" and mb: "slice 0 4 container_b = OTA_MAGIC"
    by (simp_all add: container_a_def container_b_def slice_def OTA_MAGIC_def)
  have pa: "drop 32 container_a = replicate 16 7" and pb: "drop 32 container_b = replicate 16 7"
    by (simp_all add: container_a_def container_b_def)
  have sa: "slice 16 32 container_a = replicate 16 7" and sb: "slice 16 32 container_b = replicate 16 7"
    by (simp_all add: container_a_def container_b_def slice_def)
  have m: "md5 demo_tools (replicate 16 7) = replicate 16 7"
    by (simp add: demo_tools_def demo_md5_sevens)
  have da: "md5 demo_tools (drop 32 container_a) = slice 16 32 container_a"
    and db: "md5 demo_tools (drop 32 container_b) = slice 16 32 container_b"
    unfolding pa pb sa sb by (rule m)+
  have eq: "drop 32 container_a = drop 32 container_b"
    unfolding pa pb ..
  have ne: "slice 4 16 container_a \<noteq> slice 4 16 container_b"
    by (simp add: container_a_def container_b_def slice_def)
  from C10_output_depends_on_payload_only [OF fa fb la lb ma mb da db eq, of "''out.zip''"] ne eq
  show ?thesis by blast
qed

section \<open>What \<open>encrypt\<close> writes\<close>

lemma and_255_mod: "(x::int) AND 0xFF = x mod 256"
proof -
  have "(0xFF::int) = mask 8" by (simp add: mask_eq_exp_minus_1)
  then have "x AND 0xFF = take_bit 8 x" by (simp add: take_bit_eq_mask)
  then show ?thesis by (simp add: take_bit_eq_mod)
qed

lemma uint_masked_byte: "uint (word_of_int (x AND 0xFF) :: byte) = x mod 256"
  by (simp add: and_255_mod uint_word_of_int)

lemma container_layout:
  assumes "length dg = 16"
  shows "length (OTA_MAGIC @ [v1, v2, v3, v4] @ CUSTOM_INFO @ [l1, l2, l3, l4] @ dg @ enc)
           = 32 + length enc"
    and "slice 0 4 (OTA_MAGIC @ [v1, v2, v3, v4] @ CUSTOM_INFO @ [l1, l2, l3, l4] @ dg @ enc)
           = OTA_MAGIC"
    and "slice 4 8 (OTA_MAGIC @ [v1, v2, v3, v4] @ CUSTOM_INFO @ [l1, l2, l3, l4] @ dg @ enc)
           = [v1, v2, v3, v4]"
    and "slice 8 12 (OTA_MAGIC @ [v1, v2, v3, v4] @ CUSTOM_INFO @ [l1, l2, l3, l4] @ dg @ enc)
           = CUSTOM_INFO"
    and "slice 12 16 (OTA_MAGIC @ [v1, v2, v3, v4] @ CUSTOM_INFO @ [l1, l2, l3, l4] @ dg @ enc)
           = [l1, l2, l3, l4]"
    and "slice 16 32 (OTA_MAGIC @ [v1, v2, v3, v4] @ CUSTOM_INFO @ [l1, l2, l3, l4] @ dg @ enc)
           = dg"
    and "drop 32 (OTA_MAGIC @ [v1, v2, v3, v4] @ CUSTOM_INFO @ [l1, l2, l3, l4] @ dg @ enc)
           = enc"
  using assms by (simp_all add: OTA_MAGIC_def CUSTOM_INFO_def slice_def)


lemma pack_zip_bytes_fst:
  "fst (pack_zip_bytes T outpath zb major minor patch board w) =
     (case fst (openssl_encrypt_stage T outpath (pad16 zb) w) of
        Inl e \<Rightarrow> Inl e
      | Inr encrypted \<Rightarrow>
          if length encrypted < 2 ^ 32 then
            if length (md5 T encrypted) = 16 then Inr () else Inl AssertionError
          else Inl Struct_error)"
  by (simp add: pack_zip_bytes_def build_header_eq Let_def split: prod.splits sum.splits)

lemma pack_zip_bytes_success:
  assumes "pack_zip_bytes T outpath zb major minor patch board w = (Inr (), w')"
  shows "\<exists>encrypted.
           fst (openssl_encrypt_stage T outpath (pad16 zb) w) = Inr encrypted
         \<and> length encrypted < 2 ^ 32
         \<and> length (md5 T encrypted) = 16
         \<and> files w' outpath =
             Some (OTA_MAGIC
               @ [word_of_int (major AND 0xFF), word_of_int (minor AND 0xFF),
                  word_of_int (patch AND 0xFF), word_of_int (board AND 0xFF)]
               @ CUSTOM_INFO
               @ [of_nat (length encrypted), of_nat (length encrypted div 2 ^ 8),
                  of_nat (length encrypted div 2 ^ 16), of_nat (length encrypted div 2 ^ 24)]
               @ md5 T encrypted @ encrypted)"
proof -
  obtain r w1 where st: "openssl_encrypt_stage T outpath (pad16 zb) w = (r, w1)"
    by (cases "openssl_encrypt_stage T outpath (pad16 zb) w")
  from assms st obtain encrypted where r: "r = Inr encrypted"
    by (cases r) (simp_all add: pack_zip_bytes_def Let_def)
  from assms st r obtain header where
    h: "build_header T encrypted major minor patch board = Inr header"
    by (cases "build_header T encrypted major minor patch board")
       (simp_all add: pack_zip_bytes_def Let_def)
  from assms st r h have w': "w' = print [Msg_Version_args major minor patch board,
                          Msg_ZIP_size (length zb) (length (pad16 zb)),
                          Msg_Enc_size (length encrypted),
                          Msg_MD5 (md5 T encrypted),
                          Msg_Written outpath (length header + length encrypted)]
                     (write_file outpath (header @ encrypted) w1)"
    by (simp add: pack_zip_bytes_def Let_def)
  have f: "files w' outpath = Some (header @ encrypted)"
    unfolding w' by (simp add: print_def write_file_def)
  from h have l: "length encrypted < 2 ^ 32" and m: "length (md5 T encrypted) = 16"
    and hd: "header = OTA_MAGIC
               @ [word_of_int (major AND 0xFF), word_of_int (minor AND 0xFF),
                  word_of_int (patch AND 0xFF), word_of_int (board AND 0xFF)]
               @ CUSTOM_INFO
               @ [of_nat (length encrypted), of_nat (length encrypted div 2 ^ 8),
                  of_nat (length encrypted div 2 ^ 16), of_nat (length encrypted div 2 ^ 24)]
               @ md5 T encrypted"
    unfolding build_header_eq by (simp_all split: if_splits)
  from st r have "fst (openssl_encrypt_stage T outpath (pad16 zb) w) = Inr encrypted" by simp
  with l m f hd show ?thesis by simp
qed

lemma encrypt_success:
  assumes "encrypt T inpath outpath major minor patch board w = (Inr (), w')"
  shows "\<exists>zip_bytes encrypted.
           fst (obtain_zip_bytes T inpath w) = Inr zip_bytes
         \<and> fst (openssl_encrypt_stage T outpath (pad16 zip_bytes)
                  (snd (obtain_zip_bytes T inpath w))) = Inr encrypted
         \<and> length encrypted < 2 ^ 32
         \<and> length (md5 T encrypted) = 16
         \<and> files w' outpath =
             Some (OTA_MAGIC
               @ [word_of_int (major AND 0xFF), word_of_int (minor AND 0xFF),
                  word_of_int (patch AND 0xFF), word_of_int (board AND 0xFF)]
               @ CUSTOM_INFO
               @ [of_nat (length encrypted), of_nat (length encrypted div 2 ^ 8),
                  of_nat (length encrypted div 2 ^ 16), of_nat (length encrypted div 2 ^ 24)]
               @ md5 T encrypted @ encrypted)"
proof -
  obtain r w0 where o: "obtain_zip_bytes T inpath w = (r, w0)"
    by (cases "obtain_zip_bytes T inpath w")
  from assms o obtain zb where r: "r = Inr zb"
    by (cases r) (simp_all add: encrypt_def)
  from assms o r have "pack_zip_bytes T outpath zb major minor patch board w0 = (Inr (), w')"
    by (simp add: encrypt_def)
  from pack_zip_bytes_success [OF this] o r show ?thesis by simp
qed

lemma encrypt_archive:
  assumes "\<not> endswith inpath ''.swu''" and "files w inpath = Some zb"
    and "take 2 zb = [0x50, 0x4B]"
  shows "encrypt T inpath outpath major minor patch board w =
           pack_zip_bytes T outpath zb major minor patch board w"
  using assms by (simp add: encrypt_def obtain_zip_bytes_def)

lemma build_header_mod:
  "build_header T e (a mod 256) (b mod 256) (c mod 256) (d mod 256) = build_header T e a b c d"
  by (simp add: build_header_eq and_255_mod)

lemma pack_zip_bytes_mod:
  "fst (pack_zip_bytes T outpath zb (a mod 256) (b mod 256) (c mod 256) (d mod 256) w)
     = fst (pack_zip_bytes T outpath zb a b c d w)"
  "files (snd (pack_zip_bytes T outpath zb (a mod 256) (b mod 256) (c mod 256) (d mod 256) w))
     = files (snd (pack_zip_bytes T outpath zb a b c d w))"
  unfolding pack_zip_bytes_def build_header_mod Let_def
  by (simp_all add: print_def write_file_def split: prod.splits sum.splits)

lemma encrypt_mod:
  "fst (encrypt T inpath outpath (a mod 256) (b mod 256) (c mod 256) (d mod 256) w)
     = fst (encrypt T inpath outpath a b c d w)"
  "files (snd (encrypt T inpath outpath (a mod 256) (b mod 256) (c mod 256) (d mod 256) w))
     = files (snd (encrypt T inpath outpath a b c d w))"
  unfolding encrypt_def
  by (simp_all add: pack_zip_bytes_mod split: prod.splits sum.splits)

lemma obtain_zip_bytes_error:
  "fst (obtain_zip_bytes T inpath w) \<noteq> Inl ValueError_bytes_range"
  by (simp add: obtain_zip_bytes_def wrap_swu_in_zip_def Let_def split: option.splits)

lemma pack_zip_bytes_error:
  "fst (pack_zip_bytes T outpath zb a b c d w) \<noteq> Inl ValueError_bytes_range"
  unfolding pack_zip_bytes_fst openssl_encrypt_stage_fst
  by (simp add: Let_def split: sum.splits option.splits)

lemma encrypt_error:
  "fst (encrypt T inpath outpath a b c d w) \<noteq> Inl ValueError_bytes_range"
proof (cases "obtain_zip_bytes T inpath w")
  case (Pair r w0)
  show ?thesis
  proof (cases r)
    case (Inl e)
    with Pair obtain_zip_bytes_error [of T inpath w] show ?thesis
      by (simp add: encrypt_def)
  next
    case (Inr zb)
    with Pair pack_zip_bytes_error [of T outpath zb a b c d w0] show ?thesis
      by (simp add: encrypt_def)
  qed
qed

lemma pad16_Nil: "pad16 [] = []"
  by (simp add: pad16_def)

lemma pack_empty_archive:
  assumes "returncode (openssl_enc T Enc encrypt_KEY encrypt_IV []) = 0"
    and "written (openssl_enc T Enc encrypt_KEY encrypt_IV []) = Some []"
    and "length (md5 T []) = 16"
  shows "fst (pack_zip_bytes T outpath [] major minor patch board w) = Inr ()"
    and "\<exists>out. files (snd (pack_zip_bytes T outpath [] major minor patch board w)) outpath
                  = Some out
              \<and> length out = 32 \<and> drop 32 out = []
              \<and> slice 12 16 out = [0, 0, 0, 0]
              \<and> struct_unpack_I (slice 12 16 out) = 0"
proof -
  let ?r = "pack_zip_bytes T outpath [] major minor patch board w"
  have st: "fst (openssl_encrypt_stage T outpath (pad16 []) w) = Inr []"
    unfolding openssl_encrypt_stage_fst pad16_Nil using assms(1,2) by (simp add: Let_def)
  show ok: "fst ?r = Inr ()"
    unfolding pack_zip_bytes_fst st using assms(3) by simp
  then have "?r = (Inr (), snd ?r)" by (simp add: prod_eq_iff)
  from pack_zip_bytes_success [OF this] st
  have f: "files (snd ?r) outpath =
             Some (OTA_MAGIC
               @ [word_of_int (major AND 0xFF), word_of_int (minor AND 0xFF),
                  word_of_int (patch AND 0xFF), word_of_int (board AND 0xFF)]
               @ CUSTOM_INFO
               @ [0, 0, 0, 0]
               @ md5 T [] @ [])"
    by auto
  note lay = container_layout [OF assms(3), of "word_of_int (major AND 0xFF)"
      "word_of_int (minor AND 0xFF)" "word_of_int (patch AND 0xFF)" "word_of_int (board AND 0xFF)"
      0 0 0 0 "[]"]
  have u: "struct_unpack_I [0, 0, 0, 0 :: byte] = 0" by simp
  show "\<exists>out. files (snd ?r) outpath = Some out
              \<and> length out = 32 \<and> drop 32 out = []
              \<and> slice 12 16 out = [0, 0, 0, 0]
              \<and> struct_unpack_I (slice 12 16 out) = 0"
    unfolding f using lay(1) lay(7) lay(5) u by simp
qed

lemma keys_differ: "encrypt_KEY \<noteq> decrypt_KEY"
  by (simp add: encrypt_KEY_def decrypt_KEY_def)

lemma round_trip:
  assumes "\<not> endswith inpath ''.swu''" and "files w inpath = Some A"
    and "take 2 A = [0x50, 0x4B]"
    and "returncode (openssl_enc T Enc encrypt_KEY encrypt_IV (pad16 A)) = 0"
    and "written (openssl_enc T Enc encrypt_KEY encrypt_IV (pad16 A)) = Some E"
    and "length E < 2 ^ 32" and "length (md5 T E) = 16"
    and "returncode (openssl_enc T Dec decrypt_KEY decrypt_IV E) = 0"
    and "written (openssl_enc T Dec decrypt_KEY decrypt_IV E) = Some D"
  shows "fst (encrypt T inpath binpath major minor patch board w) = Inr ()"
    and "fst (decrypt T binpath outpath
               (snd (encrypt T inpath binpath major minor patch board w))) = Inr ()"
    and "files (snd (decrypt T binpath outpath
               (snd (encrypt T inpath binpath major minor patch board w)))) outpath = Some D"
proof -
  let ?e = "encrypt T inpath binpath major minor patch board w"
  have e: "?e = pack_zip_bytes T binpath A major minor patch board w"
    using assms(1-3) by (rule encrypt_archive)
  have st: "fst (openssl_encrypt_stage T binpath (pad16 A) w) = Inr E"
    unfolding openssl_encrypt_stage_fst using assms(4,5) by (simp add: Let_def)
  show ok: "fst ?e = Inr ()"
    unfolding e pack_zip_bytes_fst st using assms(6,7) by simp
  then have "pack_zip_bytes T binpath A major minor patch board w = (Inr (), snd ?e)"
    unfolding e by (simp add: prod_eq_iff)
  from pack_zip_bytes_success [OF this] st
  have f: "files (snd ?e) binpath =
             Some (OTA_MAGIC
               @ [word_of_int (major AND 0xFF), word_of_int (minor AND 0xFF),
                  word_of_int (patch AND 0xFF), word_of_int (board AND 0xFF)]
               @ CUSTOM_INFO
               @ [of_nat (length E), of_nat (length E div 2 ^ 8),
                  of_nat (length E div 2 ^ 16), of_nat (length E div 2 ^ 24)]
               @ md5 T E @ E)"
    by auto
  let ?c = "OTA_MAGIC
               @ [word_of_int (major AND 0xFF), word_of_int (minor AND 0xFF),
                  word_of_int (patch AND 0xFF), word_of_int (board AND 0xFF)]
               @ CUSTOM_INFO
               @ [of_nat (length E), of_nat (length E div 2 ^ 8),
                  of_nat (length E div 2 ^ 16), of_nat (length E div 2 ^ 24)]
               @ md5 T E @ E"
  note lay = container_layout [OF assms(7), of "word_of_int (major AND 0xFF)"
      "word_of_int (minor AND 0xFF)" "word_of_int (patch AND 0xFF)" "word_of_int (board AND 0xFF)"
      "of_nat (length E)" "of_nat (length E div 2 ^ 8)"
      "of_nat (length E div 2 ^ 16)" "of_nat (length E div 2 ^ 24)" E]
  have l: "32 \<le> length ?c" unfolding lay(1) by simp
  have m: "take 4 ?c = OTA_MAGIC" using lay(2) unfolding slice_0 .
  have g: "md5 T (drop 32 ?c) = slice 16 32 ?c" unfolding lay(6) lay(7) ..
  from decrypt_checked_fst [OF f l m g, of outpath]
  show "fst (decrypt T binpath outpath (snd ?e)) = Inr ()"
    unfolding lay(7) using assms(8) by (simp add: Let_def)
  from decrypt_checked_files [OF f l m g, of outpath]
  show "files (snd (decrypt T binpath outpath (snd ?e))) outpath = Some D"
    unfolding lay(7) using assms(9) by simp
qed

section \<open>\<open>encrypt\<close> with the concrete tools\<close>

lemma pack_zip_bytes_demo_ok:
  assumes "length (pad16 zb) < 2 ^ 32"
  shows "fst (pack_zip_bytes demo_tools outpath zb major minor patch board w) = Inr ()"
    and "fst (openssl_encrypt_stage demo_tools outpath (pad16 zb) w) =
           Inr (xor_stream (hex_bytes encrypt_KEY @ hex_bytes encrypt_IV) (pad16 zb))"
proof -
  show st: "fst (openssl_encrypt_stage demo_tools outpath (pad16 zb) w) =
           Inr (xor_stream (hex_bytes encrypt_KEY @ hex_bytes encrypt_IV) (pad16 zb))"
    unfolding openssl_encrypt_stage_fst
    using demo_openssl_aligned [OF length_pad16_mod, of Enc encrypt_KEY encrypt_IV zb]
    by (simp add: Let_def)
  show "fst (pack_zip_bytes demo_tools outpath zb major minor patch board w) = Inr ()"
    unfolding pack_zip_bytes_fst st using assms
    by (simp add: length_xor_stream length_demo_md5)
qed

lemma pad16_empty_zip: "length (pad16 empty_zip) = 32"
  by (simp add: pad16_def empty_zip_def)

lemma pad16_empty_zip_bytes: "pad16 empty_zip = [0x50, 0x4B, 0x05, 0x06] @ replicate 28 0"
  by code_simp

lemma encrypt_example:
  "encrypt demo_tools ''fw.zip'' ''fw.bin'' major minor patch board example_world =
     pack_zip_bytes demo_tools ''fw.bin'' empty_zip major minor patch board example_world"
  by (rule encrypt_archive) (simp_all add: example_world_def empty_zip_def endswith_def)

lemma encrypt_example_ok:
  "fst (encrypt demo_tools ''fw.zip'' ''fw.bin'' major minor patch board example_world) = Inr ()"
  unfolding encrypt_example by (rule pack_zip_bytes_demo_ok) (simp add: pad16_empty_zip)

lemma round_trip_bytes:
  "xor_stream (hex_bytes decrypt_KEY @ hex_bytes decrypt_IV)
     (xor_stream (hex_bytes encrypt_KEY @ hex_bytes encrypt_IV) (pad16 empty_zip))
   = [0x50, 0x4B, 0x05, 0x06] @ replicate 26 0 @ [0x16, 0xE6]"
  by code_simp

section \<open>Claims about \<open>encrypt\<close>\<close>



text \<open>
  Claim C7.  For all integer version and board arguments, \<open>encrypt\<close> never raises the
  out-of-range error of \<open>bytes([...])\<close>; its outcome and the files it leaves are those
  of the call with every argument replaced by its low 8 bits; and when it returns
  normally, bytes 4 to 7 of the output are \<open>major & 0xFF\<close>, \<open>minor & 0xFF\<close>,
  \<open>patch & 0xFF\<close> and \<open>board & 0xFF\<close>, that is, the arguments modulo 256 (so 300 is
  stored as 44).
\<close>

theorem C7_version_fields_masked:
  "fst (encrypt T inpath outpath major minor patch board w) \<noteq> Inl ValueError_bytes_range
   \<and> fst (encrypt T inpath outpath major minor patch board w)
       = fst (encrypt T inpath outpath (major mod 256) (minor mod 256) (patch mod 256)
               (board mod 256) w)
   \<and> files (snd (encrypt T inpath outpath major minor patch board w))
       = files (snd (encrypt T inpath outpath (major mod 256) (minor mod 256) (patch mod 256)
                      (board mod 256) w))
   \<and> (fst (encrypt T inpath outpath major minor patch board w) = Inr () \<longrightarrow>
        (\<exists>out. files (snd (encrypt T inpath outpath major minor patch board w)) outpath = Some out
           \<and> length out = 32 + length (drop 32 out)
           \<and> map uint (slice 4 8 out)
               = [major AND 0xFF, minor AND 0xFF, patch AND 0xFF, board AND 0xFF]
           \<and> map uint (slice 4 8 out)
               = [major mod 256, minor mod 256, patch mod 256, board mod 256]))"
proof (intro conjI impI)
  let ?r = "encrypt T inpath outpath major minor patch board w"
  show "fst ?r \<noteq> Inl ValueError_bytes_range" by (rule encrypt_error)
  show "fst ?r = fst (encrypt T inpath outpath (major mod 256) (minor mod 256) (patch mod 256)
               (board mod 256) w)"
    by (rule encrypt_mod(1) [symmetric])
  show "files (snd ?r) = files (snd (encrypt T inpath outpath (major mod 256) (minor mod 256)
      (patch mod 256) (board mod 256) w))"
    by (rule encrypt_mod(2) [symmetric])
  show "\<exists>out. files (snd ?r) outpath = Some out
           \<and> length out = 32 + length (drop 32 out)
           \<and> map uint (slice 4 8 out)
               = [major AND 0xFF, minor AND 0xFF, patch AND 0xFF, board AND 0xFF]
           \<and> map uint (slice 4 8 out)
               = [major mod 256, minor mod 256, patch mod 256, board mod 256]"
    if "fst ?r = Inr ()"
  proof -
    from that have "?r = (Inr (), snd ?r)" by (simp add: prod_eq_iff)
    from encrypt_success [OF this] obtain encrypted where
      m: "length (md5 T encrypted) = 16"
      and f: "files (snd ?r) outpath =
             Some (OTA_MAGIC
               @ [word_of_int (major AND 0xFF), word_of_int (minor AND 0xFF),
                  word_of_int (patch AND 0xFF), word_of_int (board AND 0xFF)]
               @ CUSTOM_INFO
               @ [of_nat (length encrypted), of_nat (length encrypted div 2 ^ 8),
                  of_nat (length encrypted div 2 ^ 16), of_nat (length encrypted div 2 ^ 24)]
               @ md5 T encrypted @ encrypted)"
      by blast
    let ?out = "OTA_MAGIC
               @ [word_of_int (major AND 0xFF), word_of_int (minor AND 0xFF),
                  word_of_int (patch AND 0xFF), word_of_int (board AND 0xFF)]
               @ CUSTOM_INFO
               @ [of_nat (length encrypted), of_nat (length encrypted div 2 ^ 8),
                  of_nat (length encrypted div 2 ^ 16), of_nat (length encrypted div 2 ^ 24)]
               @ md5 T encrypted @ encrypted"
    note lay = container_layout [OF m, of "word_of_int (major AND 0xFF)"
      "word_of_int (minor AND 0xFF)" "word_of_int (patch AND 0xFF)" "word_of_int (board AND 0xFF)"
      "of_nat (length encrypted)" "of_nat (length encrypted div 2 ^ 8)"
      "of_nat (length encrypted div 2 ^ 16)" "of_nat (length encrypted div 2 ^ 24)" encrypted]
    have l: "length ?out = 32 + length (drop 32 ?out)"
      unfolding lay(7) by (rule lay(1))
    have v: "map uint (slice 4 8 ?out)
               = [major mod 256, minor mod 256, patch mod 256, board mod 256]"
      unfolding lay(3) by (simp add: uint_masked_byte)
    have a: "map uint (slice 4 8 ?out)
               = [major AND 0xFF, minor AND 0xFF, patch AND 0xFF, board AND 0xFF]"
      unfolding v by (simp add: and_255_mod)
    show ?thesis
      apply (rule exI [of _ ?out])
      apply (intro conjI)
      apply (rule f)
      apply (rule l)
      apply (rule a)
      apply (rule v)
      done
  qed
qed

theorem C7_witness:
  "fst (encrypt demo_tools ''fw.zip'' ''fw.bin'' 300 (- 1) 256 1000 example_world) = Inr ()
   \<and> map_option (\<lambda>out. map uint (slice 4 8 out))
        (files (snd (encrypt demo_tools ''fw.zip'' ''fw.bin'' 300 (- 1) 256 1000 example_world))
           ''fw.bin'')
      = Some [44, 255, 0, 232]"
proof -
  let ?r = "encrypt demo_tools ''fw.zip'' ''fw.bin'' 300 (- 1) 256 1000 example_world"
  have ok: "fst ?r = Inr ()" by (rule encrypt_example_ok)
  note c7 = C7_version_fields_masked [of demo_tools "''fw.zip''" "''fw.bin''" 300 "- 1" 256 1000
      example_world]
  from c7 ok have "\<exists>out. files (snd ?r) ''fw.bin'' = Some out
           \<and> length out = 32 + length (drop 32 out)
           \<and> map uint (slice 4 8 out) = [300 AND 0xFF, (- 1) AND 0xFF, 256 AND 0xFF, 1000 AND 0xFF]
           \<and> map uint (slice 4 8 out) = [300 mod 256, (- 1) mod 256, 256 mod 256, 1000 mod 256]"
    by (elim conjE impE)
  then obtain out where o: "files (snd ?r) ''fw.bin'' = Some out"
    and v: "map uint (slice 4 8 out) = [300 mod 256, (- 1) mod 256, 256 mod 256, 1000 mod 256]"
    by (elim exE conjE)
  have n: "[300 mod 256, (- 1) mod 256, 256 mod 256, 1000 mod 256] = [44, 255, 0, 232 :: int]"
    by simp
  from ok o v show ?thesis unfolding n by simp
qed

text \<open>
  Claim C9.  \<open>encrypt\<close> branches on its input before anything is packed.  An input
  whose path ends in \<open>.swu\<close> is wrapped into a new archive with the single entry
  \<open>update/update.swu\<close>, and that archive is packed.  Any other input is packed as it
  is when its first two bytes are \<open>PK\<close>; otherwise \<open>encrypt\<close> raises the
  not-a-ZIP error and the world is left as it was: nothing has been padded, encrypted,
  written or printed.
\<close>

theorem C9_input_branch:
  "(endswith inpath ''.swu'' \<and> files w inpath = Some raw \<longrightarrow>
      encrypt T inpath outpath major minor patch board w =
        pack_zip_bytes T outpath (zip_deflated T [(''update/update.swu'', raw)])
          major minor patch board (print [Msg_Wrapping inpath] w))
   \<and> (\<not> endswith inpath ''.swu'' \<and> files w inpath = Some data
        \<and> take 2 data = [0x50, 0x4B] \<longrightarrow>
      encrypt T inpath outpath major minor patch board w =
        pack_zip_bytes T outpath data major minor patch board w)
   \<and> (\<not> endswith inpath ''.swu'' \<and> files w inpath = Some data
        \<and> take 2 data \<noteq> [0x50, 0x4B] \<longrightarrow>
      encrypt T inpath outpath major minor patch board w =
        (Inl (ValueError_not_a_zip (take 4 data)), w))"
  by (simp add: encrypt_def obtain_zip_bytes_def wrap_swu_in_zip_def print_def Let_def)

theorem C9_witness:
  "endswith ''fw.swu'' ''.swu''
   \<and> files example_world ''fw.swu'' = Some [1, 2, 3]
   \<and> encrypt demo_tools ''fw.swu'' ''fw.bin'' 1 1 46 0 example_world =
        pack_zip_bytes demo_tools ''fw.bin'' (demo_zip [(''update/update.swu'', [1, 2, 3])])
          1 1 46 0 (print [Msg_Wrapping ''fw.swu''] example_world)
   \<and> \<not> endswith ''fw.zip'' ''.swu''
   \<and> files example_world ''fw.zip'' = Some empty_zip
   \<and> take 2 empty_zip = [0x50, 0x4B]
   \<and> encrypt demo_tools ''fw.zip'' ''fw.bin'' 1 1 46 0 example_world =
        pack_zip_bytes demo_tools ''fw.bin'' empty_zip 1 1 46 0 example_world
   \<and> \<not> endswith ''notes.txt'' ''.swu''
   \<and> files example_world ''notes.txt'' = Some [0x68, 0x69]
   \<and> take 2 [0x68, 0x69 :: byte] \<noteq> [0x50, 0x4B]
   \<and> encrypt demo_tools ''notes.txt'' ''fw.bin'' 1 1 46 0 example_world =
        (Inl (ValueError_not_a_zip [0x68, 0x69]), example_world)"
proof -
  have a1: "endswith ''fw.swu'' ''.swu''" by (simp add: endswith_def)
  have a2: "files example_world ''fw.swu'' = Some [1, 2, 3]" by (simp add: example_world_def)
  have b1: "\<not> endswith ''fw.zip'' ''.swu''" by (simp add: endswith_def)
  have b2: "files example_world ''fw.zip'' = Some empty_zip" by (simp add: example_world_def)
  have b3: "take 2 empty_zip = [0x50, 0x4B]" by (simp add: empty_zip_def)
  have c1: "\<not> endswith ''notes.txt'' ''.swu''" by (simp add: endswith_def)
  have c2: "files example_world ''notes.txt'' = Some [0x68, 0x69]"
    by (simp add: example_world_def)
  have c3: "take 2 [0x68, 0x69 :: byte] \<noteq> [0x50, 0x4B]" by simp
  have z: "zip_deflated demo_tools = demo_zip" by (simp add: demo_tools_def)
  note a = C9_input_branch [where inpath = "''fw.swu''" and w = example_world
      and raw = "[1, 2, 3]" and T = demo_tools and outpath = "''fw.bin''" and major = 1
      and minor = 1 and patch = 46 and board = 0,
      THEN conjunct1, THEN mp, OF conjI [OF a1 a2]]
  note b = C9_input_branch [where inpath = "''fw.zip''" and w = example_world
      and data = empty_zip and T = demo_tools and outpath = "''fw.bin''" and major = 1
      and minor = 1 and patch = 46 and board = 0,
      THEN conjunct2, THEN conjunct1, THEN mp, OF conjI [OF b1 conjI [OF b2 b3]]]
  note c = C9_input_branch [where inpath = "''notes.txt''" and w = example_world
      and data = "[0x68, 0x69]" and T = demo_tools and outpath = "''fw.bin''" and major = 1
      and minor = 1 and patch = 46 and board = 0,
      THEN conjunct2, THEN conjunct2, THEN mp, OF conjI [OF c1 conjI [OF c2 c3]]]
  have c': "encrypt demo_tools ''notes.txt'' ''fw.bin'' 1 1 46 0 example_world =
        (Inl (ValueError_not_a_zip [0x68, 0x69]), example_world)"
    using c by simp
  from a1 a2 a [unfolded z] b1 b2 b3 b c1 c2 c3 c' show ?thesis by (intro conjI)
qed

text \<open>
  Claim C4, as stated: packing a zero-length archive succeeds and gives a container whose
  payload-length field is a positive multiple of 16.  It does not hold.  An empty input
  file has no \<open>PK\<close> signature, so \<open>encrypt\<close> raises the not-a-ZIP error; and padding
  leaves the empty input empty, so sections 2 to 6 run on zero bytes give a container of
  the 32 header bytes alone, with the payload-length field 0.
\<close>

theorem C4_empty_archive_counterexample:
  "files example_world ''empty.zip'' = Some []
   \<and> encrypt demo_tools ''empty.zip'' ''fw.bin'' 1 1 46 0 example_world
       = (Inl (ValueError_not_a_zip []), example_world)
   \<and> pad16 [] = []
   \<and> fst (pack_zip_bytes demo_tools ''fw.bin'' [] 1 1 46 0 example_world) = Inr ()
   \<and> map_option length
        (files (snd (pack_zip_bytes demo_tools ''fw.bin'' [] 1 1 46 0 example_world)) ''fw.bin'')
       = Some 32
   \<and> map_option (\<lambda>out. struct_unpack_I (slice 12 16 out))
        (files (snd (pack_zip_bytes demo_tools ''fw.bin'' [] 1 1 46 0 example_world)) ''fw.bin'')
       = Some 0"
proof -
  have a: "files example_world ''empty.zip'' = Some []" by (simp add: example_world_def)
  have b: "encrypt demo_tools ''empty.zip'' ''fw.bin'' 1 1 46 0 example_world
       = (Inl (ValueError_not_a_zip []), example_world)"
    using a by (simp add: encrypt_def obtain_zip_bytes_def endswith_def)
  have h: "returncode (openssl_enc demo_tools Enc encrypt_KEY encrypt_IV []) = 0"
    "written (openssl_enc demo_tools Enc encrypt_KEY encrypt_IV []) = Some []"
    using demo_openssl_aligned [of "[]" Enc encrypt_KEY encrypt_IV]
    by (simp_all add: xor_stream_def)
  note p = pack_empty_archive [OF h length_demo_md5, of "''fw.bin''" 1 1 46 0 example_world]
  from p(2) obtain out where
    "files (snd (pack_zip_bytes demo_tools ''fw.bin'' [] 1 1 46 0 example_world)) ''fw.bin''
       = Some out" "length out = 32" "struct_unpack_I (slice 12 16 out) = 0"
    by (elim exE conjE)
  with a b p(1) pad16_Nil show ?thesis by simp
qed

text \<open>
  Claim C4, amended: packing a zero-length input file that does not have the raw-file
  extension fails with the not-a-ZIP error and leaves the world as it was.  Padding the
  empty byte sequence is the no-op, and when sections 2 to 6 run on zero bytes with a
  cipher that returns the empty ciphertext for the empty plaintext and a 16-byte digest,
  they succeed and write exactly the 32 header bytes, with the payload-length field 0.
\<close>

theorem C4_empty_archive_rejected:
  assumes "\<not> endswith inpath ''.swu''" and "files w inpath = Some []"
  shows "encrypt T inpath outpath major minor patch board w
           = (Inl (ValueError_not_a_zip []), w)
       \<and> pad16 [] = []
       \<and> (returncode (openssl_enc T Enc encrypt_KEY encrypt_IV []) = 0
            \<and> written (openssl_enc T Enc encrypt_KEY encrypt_IV []) = Some []
            \<and> length (md5 T []) = 16 \<longrightarrow>
          fst (pack_zip_bytes T outpath [] major minor patch board w) = Inr ()
          \<and> (\<exists>out. files (snd (pack_zip_bytes T outpath [] major minor patch board w)) outpath
                      = Some out
                 \<and> length out = 32 \<and> drop 32 out = []
                 \<and> slice 12 16 out = [0, 0, 0, 0]
                 \<and> struct_unpack_I (slice 12 16 out) = 0))"
proof (intro conjI impI)
  show "encrypt T inpath outpath major minor patch board w = (Inl (ValueError_not_a_zip []), w)"
    using assms by (simp add: encrypt_def obtain_zip_bytes_def)
  show "pad16 [] = []" by (rule pad16_Nil)
  assume h: "returncode (openssl_enc T Enc encrypt_KEY encrypt_IV []) = 0
            \<and> written (openssl_enc T Enc encrypt_KEY encrypt_IV []) = Some []
            \<and> length (md5 T []) = 16"
  then have h1: "returncode (openssl_enc T Enc encrypt_KEY encrypt_IV []) = 0"
    and h2: "written (openssl_enc T Enc encrypt_KEY encrypt_IV []) = Some []"
    and h3: "length (md5 T []) = 16"
    by simp_all
  show "fst (pack_zip_bytes T outpath [] major minor patch board w) = Inr ()"
    by (rule pack_empty_archive(1) [OF h1 h2 h3])
  show "\<exists>out. files (snd (pack_zip_bytes T outpath [] major minor patch board w)) outpath
                      = Some out
                 \<and> length out = 32 \<and> drop 32 out = []
                 \<and> slice 12 16 out = [0, 0, 0, 0]
                 \<and> struct_unpack_I (slice 12 16 out) = 0"
    by (rule pack_empty_archive(2) [OF h1 h2 h3])
qed

theorem C4_witness:
  "\<not> endswith ''empty.zip'' ''.swu''
   \<and> files example_world ''empty.zip'' = Some []
   \<and> encrypt demo_tools ''empty.zip'' ''fw.bin'' 0 0 0 0 example_world
       = (Inl (ValueError_not_a_zip []), example_world)
   \<and> returncode (openssl_enc demo_tools Enc encrypt_KEY encrypt_IV []) = 0
   \<and> written (openssl_enc demo_tools Enc encrypt_KEY encrypt_IV []) = Some []
   \<and> length (md5 demo_tools []) = 16
   \<and> fst (pack_zip_bytes demo_tools ''fw.bin'' [] 0 0 0 0 example_world) = Inr ()
   \<and> map_option length
        (files (snd (pack_zip_bytes demo_tools ''fw.bin'' [] 0 0 0 0 example_world)) ''fw.bin'')
       = Some 32
   \<and> map_option (slice 12 16)
        (files (snd (pack_zip_bytes demo_tools ''fw.bin'' [] 0 0 0 0 example_world)) ''fw.bin'')
       = Some [0, 0, 0, 0]"
proof -
  have a1: "\<not> endswith ''empty.zip'' ''.swu''" by (simp add: endswith_def)
  have a2: "files example_world ''empty.zip'' = Some []" by (simp add: example_world_def)
  have h1: "returncode (openssl_enc demo_tools Enc encrypt_KEY encrypt_IV []) = 0"
    and h2: "written (openssl_enc demo_tools Enc encrypt_KEY encrypt_IV []) = Some []"
    using demo_openssl_aligned [of "[]" Enc encrypt_KEY encrypt_IV]
    by (simp_all add: xor_stream_def)
  have h3: "length (md5 demo_tools []) = 16" by (rule length_demo_md5)
  note c4 = C4_empty_archive_rejected [OF a1 a2, of demo_tools "''fw.bin''" 0 0 0 0]
  from c4 have 1: "encrypt demo_tools ''empty.zip'' ''fw.bin'' 0 0 0 0 example_world
       = (Inl (ValueError_not_a_zip []), example_world)"
    by (elim conjE)
  from c4 h1 h2 h3
  have 2: "fst (pack_zip_bytes demo_tools ''fw.bin'' [] 0 0 0 0 example_world) = Inr ()"
    and "\<exists>out. files (snd (pack_zip_bytes demo_tools ''fw.bin'' [] 0 0 0 0 example_world))
                    ''fw.bin'' = Some out
                 \<and> length out = 32 \<and> drop 32 out = []
                 \<and> slice 12 16 out = [0, 0, 0, 0]
                 \<and> struct_unpack_I (slice 12 16 out) = 0"
    by blast+
  then obtain out where
    "files (snd (pack_zip_bytes demo_tools ''fw.bin'' [] 0 0 0 0 example_world)) ''fw.bin''
       = Some out" "length out = 32" "slice 12 16 out = [0, 0, 0, 0]"
    by (elim exE conjE)
  with a1 a2 1 h1 h2 h3 2 show ?thesis by simp
qed

section \<open>The round trip\<close>

text \<open>
  Claim C1.  The specification asks that decoding a freshly packed container gives back
  the padded archive.  In the code \<open>encrypt\<close> hands \<open>openssl\<close> the key
  \<open>encrypt_KEY\<close> and \<open>decrypt\<close> hands it \<open>decrypt_KEY\<close>, and the two differ in
  their last two bytes.  For an archive \<open>A\<close> beginning with \<open>PK\<close>, when the cipher
  program succeeds both times, packing and unpacking both return normally (the digest
  check passes) and the decoded file is the decryption under \<open>decrypt_KEY\<close> of the
  encryption under \<open>encrypt_KEY\<close> of \<open>pad16 A\<close>.  With the concrete tools that is
  not \<open>pad16 A\<close>.
\<close>

theorem C1_round_trip_decrypts_under_another_key:
  assumes "\<not> endswith inpath ''.swu''" and "files w inpath = Some A"
    and "take 2 A = [0x50, 0x4B]"
    and "returncode (openssl_enc T Enc encrypt_KEY encrypt_IV (pad16 A)) = 0"
    and "written (openssl_enc T Enc encrypt_KEY encrypt_IV (pad16 A)) = Some E"
    and "length E < 2 ^ 32" and "length (md5 T E) = 16"
    and "returncode (openssl_enc T Dec decrypt_KEY decrypt_IV E) = 0"
    and "written (openssl_enc T Dec decrypt_KEY decrypt_IV E) = Some D"
  shows "encrypt_KEY \<noteq> decrypt_KEY
       \<and> fst (encrypt T inpath binpath major minor patch board w) = Inr ()
       \<and> fst (decrypt T binpath outpath
               (snd (encrypt T inpath binpath major minor patch board w))) = Inr ()
       \<and> files (snd (decrypt T binpath outpath
               (snd (encrypt T inpath binpath major minor patch board w)))) outpath = Some D"
  using keys_differ round_trip [OF assms] by (intro conjI)

theorem C1_witness:
  "encrypt_KEY \<noteq> decrypt_KEY
   \<and> fst (encrypt demo_tools ''fw.zip'' ''fw.bin'' 1 1 46 0 example_world) = Inr ()
   \<and> fst (decrypt demo_tools ''fw.bin'' ''out.zip''
            (snd (encrypt demo_tools ''fw.zip'' ''fw.bin'' 1 1 46 0 example_world))) = Inr ()
   \<and> files (snd (decrypt demo_tools ''fw.bin'' ''out.zip''
            (snd (encrypt demo_tools ''fw.zip'' ''fw.bin'' 1 1 46 0 example_world)))) ''out.zip''
       = Some ([0x50, 0x4B, 0x05, 0x06] @ replicate 26 0 @ [0x16, 0xE6])
   \<and> pad16 empty_zip = [0x50, 0x4B, 0x05, 0x06] @ replicate 28 0
   \<and> [0x50, 0x4B, 0x05, 0x06] @ replicate 26 0 @ [0x16, 0xE6] \<noteq> pad16 empty_zip"
proof -
  let ?E = "xor_stream (hex_bytes encrypt_KEY @ hex_bytes encrypt_IV) (pad16 empty_zip)"
  let ?D = "xor_stream (hex_bytes decrypt_KEY @ hex_bytes decrypt_IV) ?E"
  have a1: "\<not> endswith ''fw.zip'' ''.swu''" by (simp add: endswith_def)
  have a2: "files example_world ''fw.zip'' = Some empty_zip" by (simp add: example_world_def)
  have a3: "take 2 empty_zip = [0x50, 0x4B]" by (simp add: empty_zip_def)
  have lE: "length ?E = 32" by (simp add: length_xor_stream pad16_empty_zip)
  have a4: "returncode (openssl_enc demo_tools Enc encrypt_KEY encrypt_IV (pad16 empty_zip)) = 0"
    and a5: "written (openssl_enc demo_tools Enc encrypt_KEY encrypt_IV (pad16 empty_zip))
               = Some ?E"
    using demo_openssl_aligned [OF length_pad16_mod, of Enc encrypt_KEY encrypt_IV empty_zip]
    by simp_all
  have a6: "length ?E < 2 ^ 32" unfolding lE by simp
  have a7: "length (md5 demo_tools ?E) = 16" by (rule length_demo_md5)
  have "length ?E mod 16 = 0" unfolding lE by simp
  from demo_openssl_aligned [OF this, of Dec decrypt_KEY decrypt_IV]
  have a8: "returncode (openssl_enc demo_tools Dec decrypt_KEY decrypt_IV ?E) = 0"
    and a9: "written (openssl_enc demo_tools Dec decrypt_KEY decrypt_IV ?E) = Some ?D"
    by simp_all
  note c1 = C1_round_trip_decrypts_under_another_key [OF a1 a2 a3 a4 a5 a6 a7 a8 a9,
      of "''fw.bin''" 1 1 46 0 "''out.zip''"]
  have p: "pad16 empty_zip = [0x50, 0x4B, 0x05, 0x06] @ replicate 28 0"
    by (rule pad16_empty_zip_bytes)
  have n: "[0x50, 0x4B, 0x05, 0x06] @ replicate 26 0 @ [0x16, 0xE6] \<noteq> pad16 empty_zip"
    unfolding p by code_simp
  from c1 [unfolded round_trip_bytes] p n show ?thesis by (intro conjI) (elim conjE, assumption)+
qed

end
